theory Spec2Isabelle
  imports Main "HOL-Library.Word" "HOL-Library.Sublist"
begin

section \<open>JavaScript values as the chat frontend sees them\<close>

text \<open>
  The program is \<^verbatim>\<open>frontend/src/App.js\<close>, a React component. A JavaScript string is a
  sequence of UTF-16 code units, and both \<^verbatim>\<open>String.prototype.trim\<close> and the regular
  expressions of \<^verbatim>\<open>formatMessage\<close> work on code units, so a string is a list of 16-bit
  words. \<open>ascii\<close> embeds an ASCII literal of the source.
\<close>

type_synonym jschar = "16 word"
type_synonym jsstring = "jschar list"

definition ascii :: "string \<Rightarrow> jsstring" where
  "ascii cs = map of_char cs"

text \<open>
  The values that \<^verbatim>\<open>JSON.parse\<close> (inside \<^verbatim>\<open>response.json()\<close>) can produce, together
  with \<^verbatim>\<open>undefined\<close>, which a read of a missing property yields. A number is carried by
  its canonical rendering (the result of \<^verbatim>\<open>Number::toString\<close>, such as \<^verbatim>\<open>0\<close>, \<^verbatim>\<open>1.5\<close> or
  \<^verbatim>\<open>1e+21\<close>): the program only tests a number for truthiness and interpolates it in a
  template literal. A parsed number is never \<^verbatim>\<open>NaN\<close>, and both zeros render as \<^verbatim>\<open>0\<close>.
  An object is the association list of its own properties.
\<close>

datatype jsval =
    Undefined
  | Null
  | Boolean bool
  | Number jsstring
  | String jsstring
  | Array "jsval list"
  | Object "(jsstring \<times> jsval) list"

datatype js_error = TypeError | SyntaxError

text \<open>\<^verbatim>\<open>ToBoolean\<close>: what \<^verbatim>\<open>!x\<close> and \<^verbatim>\<open>x || y\<close> test.\<close>

fun to_boolean :: "jsval \<Rightarrow> bool" where
  "to_boolean Undefined = False"
| "to_boolean Null = False"
| "to_boolean (Boolean b) = b"
| "to_boolean (Number n) = (n \<noteq> ascii ''0'')"
| "to_boolean (String s) = (s \<noteq> [])"
| "to_boolean (Array xs) = True"
| "to_boolean (Object kvs) = True"

text \<open>
  The property reads \<^verbatim>\<open>data.response\<close> and \<^verbatim>\<open>data.error\<close>. Reading a property of
  \<^verbatim>\<open>null\<close> or \<^verbatim>\<open>undefined\<close> throws; an object yields its own property or
  \<^verbatim>\<open>undefined\<close>; a primitive or an array has no property of either name.
\<close>

fun get_prop :: "jsval \<Rightarrow> jsstring \<Rightarrow> js_error + jsval" where
  "get_prop Undefined name = Inl TypeError"
| "get_prop Null name = Inl TypeError"
| "get_prop (Object kvs) name =
     Inr (case map_of kvs name of Some v \<Rightarrow> v | None \<Rightarrow> Undefined)"
| "get_prop v name = Inr Undefined"

text \<open>
  \<^verbatim>\<open>ToString\<close>, which a template literal applies to the interpolated value. An array
  joins its elements with commas, \<^verbatim>\<open>null\<close> and \<^verbatim>\<open>undefined\<close> elements rendering
  empty. A parsed object renders as \<^verbatim>\<open>[object Object]\<close>, unless it has an own
  property \<^verbatim>\<open>toString\<close>: that property is not callable, \<^verbatim>\<open>valueOf\<close> gives no
  primitive either, and the conversion throws.
\<close>

fun join_comma :: "jsstring list \<Rightarrow> jsstring" where
  "join_comma [] = []"
| "join_comma [s] = s"
| "join_comma (s # ss) = s @ ascii '','' @ join_comma ss"

fun collect :: "(js_error + 'a) list \<Rightarrow> js_error + 'a list" where
  "collect [] = Inr []"
| "collect (Inl e # rs) = Inl e"
| "collect (Inr x # rs) = (case collect rs of Inl e \<Rightarrow> Inl e | Inr xs \<Rightarrow> Inr (x # xs))"

fun to_string :: "jsval \<Rightarrow> js_error + jsstring" where
  "to_string Undefined = Inr (ascii ''undefined'')"
| "to_string Null = Inr (ascii ''null'')"
| "to_string (Boolean b) = Inr (ascii (if b then ''true'' else ''false''))"
| "to_string (Number n) = Inr n"
| "to_string (String s) = Inr s"
| "to_string (Array xs) =
     (case collect (map (\<lambda>x. if x = Undefined \<or> x = Null then Inr [] else to_string x) xs) of
        Inl e \<Rightarrow> Inl e
      | Inr ss \<Rightarrow> Inr (join_comma ss))"
| "to_string (Object kvs) =
     (if map_of kvs (ascii ''toString'') \<noteq> None then Inl TypeError
      else Inr (ascii ''[object Object]''))"

section \<open>Component state\<close>

text \<open>
  A chat turn is the object literal \<^verbatim>\<open>{type, text, timestamp}\<close>. The text of a bot turn
  is whatever \<^verbatim>\<open>data.response\<close> was, so it is a value, not always a string. A timestamp
  is the reading of the clock (\<^verbatim>\<open>new Date()\<close>), passed in by the caller.
\<close>

datatype turn_type = User | Bot

type_synonym instant = nat

record message =
  type :: turn_type
  text' :: jsval
  timestamp :: instant

text \<open>The five \<^verbatim>\<open>useState\<close> cells of \<^verbatim>\<open>App\<close>.\<close>

record app_state =
  messages :: "message list"
  input :: jsstring
  isLoading :: bool
  suggestions :: "jsstring list"
  isListening :: bool

definition greeting :: jsstring where
  "greeting =
     [0xD83D, 0xDC4B] @ ascii '' Hi there! I'm **OneIT**, your placement companion! ''
     @ [0xD83C, 0xDF93, 0x0A, 0x0A] @ ascii ''I'm here to help you with:'' @ [0x0A]
     @ [0x2022] @ ascii '' Company interview processes'' @ [0x0A]
     @ [0x2022] @ ascii '' Eligibility criteria'' @ [0x0A]
     @ [0x2022] @ ascii '' Package details'' @ [0x0A]
     @ [0x2022] @ ascii '' Interview tips & experiences'' @ [0x0A, 0x0A]
     @ ascii ''What would you like to know about placements today?''"

definition initial_state :: "instant \<Rightarrow> app_state" where
  "initial_state now =
     \<lparr> messages = [\<lparr> type = Bot, text' = String greeting, timestamp = now \<rparr>],
       input = [],
       isLoading = False,
       suggestions = [],
       isListening = False \<rparr>"

section \<open>Sending a message\<close>

text \<open>
  \<^verbatim>\<open>String.prototype.trim\<close> removes white space and line terminators from both ends:
  TAB, LF, VT, FF, CR, SP, NBSP, U+1680, U+2000 to U+200A, U+2028, U+2029, U+202F, U+205F,
  U+3000 and the byte order mark U+FEFF.
\<close>

definition is_js_space :: "jschar \<Rightarrow> bool" where
  "is_js_space c \<longleftrightarrow>
     c \<in> set [0x09, 0x0A, 0x0B, 0x0C, 0x0D, 0x20, 0xA0, 0x1680,
               0x2000, 0x2001, 0x2002, 0x2003, 0x2004, 0x2005, 0x2006, 0x2007, 0x2008,
               0x2009, 0x200A, 0x2028, 0x2029, 0x202F, 0x205F, 0x3000, 0xFEFF]"

definition js_trim :: "jsstring \<Rightarrow> jsstring" where
  "js_trim s = rev (dropWhile is_js_space (rev (dropWhile is_js_space s)))"

text \<open>
  The request of \<^verbatim>\<open>sendMessage\<close>: a POST to the chat endpoint whose body is the JSON
  text of \<^verbatim>\<open>{ message: messageText }\<close>; \<open>payload\<close> is the value given to
  \<^verbatim>\<open>JSON.stringify\<close>.
\<close>

record request =
  url :: jsstring
  http_method :: jsstring
  payload :: jsval

definition chat_request :: "jsstring \<Rightarrow> request" where
  "chat_request messageText =
     \<lparr> url = ascii ''http://localhost:5000/api/chat'',
       http_method = ascii ''POST'',
       payload = Object [(ascii ''message'', String messageText)] \<rparr>"

text \<open>
  How the two awaits of \<^verbatim>\<open>sendMessage\<close> can settle: \<^verbatim>\<open>fetch\<close> rejects (no response), or
  it resolves to a response with a status, whose \<^verbatim>\<open>json()\<close> either rejects (the body is
  not JSON: \<open>None\<close>) or resolves to the parsed value. \<^verbatim>\<open>response.ok\<close> is true for a
  status from 200 to 299.
\<close>

datatype fetch_outcome =
    NetworkFailure
  | Response nat "jsval option"

definition ok :: "nat \<Rightarrow> bool" where
  "ok status \<longleftrightarrow> 200 \<le> status \<and> status \<le> 299"

definition error_prefix :: jsstring where
  "error_prefix = [0x26A0, 0xFE0F] @ ascii '' Error: ''"

definition something_went_wrong :: jsstring where
  "something_went_wrong = ascii ''Something went wrong''"

definition failed_to_connect :: jsstring where
  "failed_to_connect =
     [0x26A0, 0xFE0F]
     @ ascii '' Failed to connect to the server. Please make sure the backend is running.''"

text \<open>
  The part of \<^verbatim>\<open>sendMessage\<close> up to the first \<^verbatim>\<open>await\<close>: the guard on the trimmed text,
  the three state updates, and the request handed to \<^verbatim>\<open>fetch\<close> (\<open>None\<close> on the early
  return).
\<close>

definition sendMessage_begin ::
  "jsstring \<Rightarrow> instant \<Rightarrow> app_state \<Rightarrow> app_state \<times> request option" where
  "sendMessage_begin messageText now s =
     (if js_trim messageText = [] then (s, None)
      else
        let userMessage = \<lparr> type = User, text' = String messageText, timestamp = now \<rparr>
        in (s\<lparr> messages := messages s @ [userMessage], input := [], isLoading := True \<rparr>,
            Some (chat_request messageText)))"

text \<open>
  The body of the \<^verbatim>\<open>try\<close> block once the request has settled: the bot turn it builds,
  or the exception that leaves it (a rejected \<^verbatim>\<open>fetch\<close> or \<^verbatim>\<open>json()\<close>, a property read
  on \<^verbatim>\<open>null\<close>, a failing string conversion).
\<close>

definition botMessage :: "fetch_outcome \<Rightarrow> instant \<Rightarrow> js_error + message" where
  "botMessage outcome now =
     (case outcome of
        NetworkFailure \<Rightarrow> Inl TypeError
      | Response status None \<Rightarrow> Inl SyntaxError
      | Response status (Some data) \<Rightarrow>
          if ok status then
            (case get_prop data (ascii ''response'') of
               Inl e \<Rightarrow> Inl e
             | Inr v \<Rightarrow> Inr \<lparr> type = Bot, text' = v, timestamp = now \<rparr>)
          else
            (case get_prop data (ascii ''error'') of
               Inl e \<Rightarrow> Inl e
             | Inr err \<Rightarrow>
                 (case to_string (if to_boolean err then err else String something_went_wrong) of
                    Inl e \<Rightarrow> Inl e
                  | Inr shown \<Rightarrow>
                      Inr \<lparr> type = Bot, text' = String (error_prefix @ shown),
                            timestamp = now \<rparr>)))"

definition errorMessage :: "instant \<Rightarrow> message" where
  "errorMessage now = \<lparr> type = Bot, text' = String failed_to_connect, timestamp = now \<rparr>"

text \<open>
  The rest of \<^verbatim>\<open>sendMessage\<close>, run when the request settles: \<^verbatim>\<open>try\<close> appends the bot
  turn, \<^verbatim>\<open>catch\<close> appends the fixed one, \<^verbatim>\<open>finally\<close> clears the flag. Every update of
  the turns is a functional update (\<^verbatim>\<open>prev => [...prev, m]\<close>), so it acts on the state
  at that moment.
\<close>

definition sendMessage_resume :: "fetch_outcome \<Rightarrow> instant \<Rightarrow> app_state \<Rightarrow> app_state" where
  "sendMessage_resume outcome now s =
     (let m = (case botMessage outcome now of Inr m \<Rightarrow> m | Inl e \<Rightarrow> errorMessage now)
      in s\<lparr> messages := messages s @ [m], isLoading := False \<rparr>)"

text \<open>One whole call of \<^verbatim>\<open>sendMessage\<close> with nothing else happening in between.\<close>

definition sendMessage ::
  "jsstring \<Rightarrow> instant \<Rightarrow> fetch_outcome \<Rightarrow> instant \<Rightarrow> app_state \<Rightarrow> app_state" where
  "sendMessage messageText now outcome later s =
     (case sendMessage_begin messageText now s of
        (s', None) \<Rightarrow> s'
      | (s', Some req) \<Rightarrow> sendMessage_resume outcome later s')"

section \<open>Keyboard, formatting and the suggestions panel\<close>

record key_event =
  key :: jsstring
  shiftKey :: bool
  ctrlKey :: bool
  altKey :: bool
  metaKey :: bool

text \<open>
  \<^verbatim>\<open>handleKeyPress\<close>: the new state, the request issued by \<^verbatim>\<open>sendMessage()\<close> (called
  with the draft, its default argument) and whether \<^verbatim>\<open>preventDefault\<close> was called.
\<close>

definition handleKeyPress ::
  "key_event \<Rightarrow> instant \<Rightarrow> app_state \<Rightarrow> app_state \<times> request option \<times> bool" where
  "handleKeyPress e now s =
     (if key e = ascii ''Enter'' \<and> \<not> shiftKey e then
        (case sendMessage_begin (input s) now s of (s', req) \<Rightarrow> (s', req, True))
      else (s, None, False))"

text \<open>
  \<^verbatim>\<open>formatMessage\<close>. The first replacement is a global, lazy match of
  \<^verbatim>\<open>\*\*(.*?)\*\*\<close>: from the leftmost \<^verbatim>\<open>**\<close>, the shortest run of characters other than
  line terminators (the dot matches none of LF, CR, U+2028, U+2029) that is followed by
  \<^verbatim>\<open>**\<close>; the search goes on after the match. \<open>find_close\<close> looks for that closing
  \<^verbatim>\<open>**\<close> and returns the captured group and the text after the match.
\<close>

definition is_line_terminator :: "jschar \<Rightarrow> bool" where
  "is_line_terminator c \<longleftrightarrow> c \<in> set [0x0A, 0x0D, 0x2028, 0x2029]"

definition star :: jschar where
  "star = 0x2A"

fun find_close :: "jsstring \<Rightarrow> (jsstring \<times> jsstring) option" where
  "find_close (c # d # ds) =
     (if c = star \<and> d = star then Some ([], ds)
      else if is_line_terminator c then None
      else (case find_close (d # ds) of
              None \<Rightarrow> None
            | Some (inner, rest) \<Rightarrow> Some (c # inner, rest)))"
| "find_close cs = None"

function replace_strong :: "jsstring \<Rightarrow> jsstring" where
  "replace_strong (c # d # ds) =
     (if c = star \<and> d = star then
        (case find_close ds of
           Some (inner, rest) \<Rightarrow>
             ascii ''<strong>'' @ inner @ ascii ''</strong>'' @ replace_strong rest
         | None \<Rightarrow> c # replace_strong (d # ds))
      else c # replace_strong (d # ds))"
| "replace_strong [c] = [c]"
| "replace_strong [] = []"
  by pat_completeness auto
termination
proof -
  have shorter: "length rest < length cs"
    if "find_close cs = Some (inner, rest)" for cs inner rest
    using that
    by (induction cs arbitrary: inner rule: find_close.induct)
       (auto split: if_splits option.splits)
  show ?thesis
    by (relation "measure length") (auto dest: shorter)
qed

text \<open>
  A text in which no two asterisks stand side by side; the pattern matches nowhere in
  such a text.
\<close>

fun no_double_star :: "jsstring \<Rightarrow> bool" where
  "no_double_star (c # d # ds) \<longleftrightarrow> \<not> (c = star \<and> d = star) \<and> no_double_star (d # ds)"
| "no_double_star cs \<longleftrightarrow> True"

text \<open>
  Where the pattern matches, said without the search: a span begins at the head of a
  text when the text begins with a double asterisk and another double asterisk follows
  before the next line terminator. \<open>no_span_in pre tail\<close> says that no span begins at any
  position of \<open>pre\<close> in the text \<open>pre @ tail\<close>, and \<open>no_span\<close> that none begins anywhere.
\<close>

definition same_line :: "jsstring \<Rightarrow> jsstring" where
  "same_line cs = takeWhile (\<lambda>c. \<not> is_line_terminator c) cs"

fun span_here :: "jsstring \<Rightarrow> bool" where
  "span_here (c # d # ds) \<longleftrightarrow> c = star \<and> d = star \<and> \<not> no_double_star (same_line ds)"
| "span_here cs \<longleftrightarrow> False"

fun no_span_in :: "jsstring \<Rightarrow> jsstring \<Rightarrow> bool" where
  "no_span_in [] tail \<longleftrightarrow> True"
| "no_span_in (c # pre) tail \<longleftrightarrow> \<not> span_here (c # pre @ tail) \<and> no_span_in pre tail"

definition no_span :: "jsstring \<Rightarrow> bool" where
  "no_span s \<longleftrightarrow> no_span_in s []"

definition replace_newline :: "jsstring \<Rightarrow> jsstring" where
  "replace_newline s = concat (map (\<lambda>c. if c = 0x0A then ascii ''<br/>'' else [c]) s)"

text \<open>
  The result is \<^verbatim>\<open>null\<close> (\<open>None\<close>) for a falsy text, and otherwise the string given to
  \<^verbatim>\<open>dangerouslySetInnerHTML\<close>. A truthy text that is not a string has no
  \<^verbatim>\<open>replace\<close> method, and the call throws.
\<close>

definition formatMessage :: "jsval \<Rightarrow> js_error + jsstring option" where
  "formatMessage t =
     (if \<not> to_boolean t then Inr None
      else (case t of
              String s \<Rightarrow> Inr (Some (replace_newline (replace_strong s)))
            | _ \<Rightarrow> Inl TypeError))"

text \<open>
  The suggestions block of the JSX: \<open>None\<close> when the panel is not rendered, otherwise
  the labels of the chips, \<^verbatim>\<open>suggestions.slice(0, 4)\<close> in order.
\<close>

definition suggestions_panel :: "app_state \<Rightarrow> jsstring list option" where
  "suggestions_panel s =
     (if length (messages s) = 1 \<and> length (suggestions s) > 0
      then Some (take 4 (suggestions s)) else None)"

section \<open>The component as a transition system\<close>

text \<open>
  The remaining handlers of \<^verbatim>\<open>App\<close>. The suggestions request resolves to
  \<^verbatim>\<open>data.suggestions || []\<close>: \<open>None\<close> stands for an absent or falsy field, and the
  backend's contract makes a present one an array of strings.
\<close>

definition suggestions_loaded :: "jsstring list option \<Rightarrow> app_state \<Rightarrow> app_state" where
  "suggestions_loaded field s =
     s\<lparr> suggestions := (case field of Some xs \<Rightarrow> xs | None \<Rightarrow> []) \<rparr>"

definition onstart :: "app_state \<Rightarrow> app_state" where
  "onstart s = s\<lparr> isListening := True \<rparr>"

definition onend :: "app_state \<Rightarrow> app_state" where
  "onend s = s\<lparr> isListening := False \<rparr>"

definition onresult :: "jsstring \<Rightarrow> instant \<Rightarrow> app_state \<Rightarrow> app_state \<times> request option" where
  "onresult transcript now s = sendMessage_begin transcript now (s\<lparr> input := transcript \<rparr>)"

definition onerror :: "app_state \<Rightarrow> app_state" where
  "onerror s = s\<lparr> isListening := False \<rparr>"

text \<open>
  \<^verbatim>\<open>toggleVoiceInput\<close>; the first argument tells whether \<^verbatim>\<open>recognitionRef.current\<close>
  holds an engine. Without one the handler only shows an alert.
\<close>

definition toggleVoiceInput :: "bool \<Rightarrow> app_state \<Rightarrow> app_state" where
  "toggleVoiceInput engine s =
     (if \<not> engine then s
      else if isListening s then s\<lparr> isListening := False \<rparr>
      else s\<lparr> isListening := True \<rparr>)"

text \<open>
  The component with its surroundings: the chat requests that have been issued and have
  not settled yet, whether the suggestions request is still open, and whether the
  browser has a speech engine.
\<close>

record world =
  app :: app_state
  in_flight :: "request list"
  suggestions_pending :: bool
  engine_present :: bool

definition mount :: "instant \<Rightarrow> bool \<Rightarrow> world" where
  "mount now engine =
     \<lparr> app = initial_state now, in_flight = [], suggestions_pending = True,
       engine_present = engine \<rparr>"

datatype event =
    SuggestionsResolved "jsstring list option"
  | SuggestionsRejected
  | SpeechStart
  | SpeechEnd
  | SpeechResult jsstring
  | SpeechError
  | VoiceClick
  | Change jsstring
  | KeyPress key_event
  | SendClick
  | ChipClick nat
  | Settled nat fetch_outcome

definition issue :: "world \<Rightarrow> app_state \<times> request option \<Rightarrow> world" where
  "issue w r =
     (case r of
        (s, None) \<Rightarrow> w\<lparr> app := s \<rparr>
      | (s, Some req) \<Rightarrow> w\<lparr> app := s, in_flight := in_flight w @ [req] \<rparr>)"

definition drop_nth :: "nat \<Rightarrow> 'a list \<Rightarrow> 'a list" where
  "drop_nth i xs = take i xs @ drop (Suc i) xs"

text \<open>
  One event of the page. An event that the page cannot deliver leaves the world as it
  is: the textarea is disabled while \<^verbatim>\<open>isLoading\<close>, the send button while the trimmed
  draft is empty or \<^verbatim>\<open>isLoading\<close>, a chip exists only inside the rendered panel, and only
  a request in flight can settle.
\<close>

fun step :: "instant \<Rightarrow> event \<Rightarrow> world \<Rightarrow> world" where
  "step now (SuggestionsResolved field) w =
     (if suggestions_pending w
      then w\<lparr> app := suggestions_loaded field (app w), suggestions_pending := False \<rparr>
      else w)"
| "step now SuggestionsRejected w =
     (if suggestions_pending w then w\<lparr> suggestions_pending := False \<rparr> else w)"
| "step now SpeechStart w =
     (if engine_present w then w\<lparr> app := onstart (app w) \<rparr> else w)"
| "step now SpeechEnd w =
     (if engine_present w then w\<lparr> app := onend (app w) \<rparr> else w)"
| "step now (SpeechResult transcript) w =
     (if engine_present w then issue w (onresult transcript now (app w)) else w)"
| "step now SpeechError w =
     (if engine_present w then w\<lparr> app := onerror (app w) \<rparr> else w)"
| "step now VoiceClick w = w\<lparr> app := toggleVoiceInput (engine_present w) (app w) \<rparr>"
| "step now (Change v) w =
     (if isLoading (app w) then w else w\<lparr> app := (app w)\<lparr> input := v \<rparr> \<rparr>)"
| "step now (KeyPress e) w =
     (if isLoading (app w) then w
      else (case handleKeyPress e now (app w) of (s, req, prevented) \<Rightarrow> issue w (s, req)))"
| "step now SendClick w =
     (if js_trim (input (app w)) = [] \<or> isLoading (app w) then w
      else issue w (sendMessage_begin (input (app w)) now (app w)))"
| "step now (ChipClick i) w =
     (case suggestions_panel (app w) of
        None \<Rightarrow> w
      | Some chips \<Rightarrow>
          if i < length chips then issue w (sendMessage_begin (chips ! i) now (app w)) else w)"
| "step now (Settled i outcome) w =
     (if i < length (in_flight w)
      then w\<lparr> app := sendMessage_resume outcome now (app w),
              in_flight := drop_nth i (in_flight w) \<rparr>
      else w)"

fun run :: "(instant \<times> event) list \<Rightarrow> world \<Rightarrow> world" where
  "run [] w = w"
| "run ((now, e) # es) w = run es (step now e w)"

text \<open>
  The number of turns of one kind in the conversation, to count user turns against bot
  turns and requests in flight.
\<close>

definition turns_of :: "turn_type \<Rightarrow> world \<Rightarrow> nat" where
  "turns_of t w = length (filter (\<lambda>m. type m = t) (messages (app w)))"

text \<open>\<^verbatim>\<open>String.prototype.includes\<close>, to say that a text contains another.\<close>

fun js_includes :: "jsstring \<Rightarrow> jsstring \<Rightarrow> bool" where
  "js_includes [] y = (y = [])"
| "js_includes (c # cs) y = (prefix y (c # cs) \<or> js_includes cs y)"

section \<open>Submitting a message\<close>

lemma dropWhile_all_iff:
  "(\<forall>x\<in>set (dropWhile P s). P x) \<longleftrightarrow> (\<forall>x\<in>set s. P x)"
  by (induction s) auto

lemma js_trim_empty_iff: "js_trim s = [] \<longleftrightarrow> list_all is_js_space s"
  by (simp add: js_trim_def list_all_iff dropWhile_all_iff)

lemma botMessage_type:
  "botMessage outcome now = Inr m \<Longrightarrow> type m = Bot \<and> timestamp m = now"
  by (auto simp: botMessage_def split: fetch_outcome.splits option.splits if_splits sum.splits)

lemma sendMessage_resume_appends:
  "\<exists>m. type m = Bot \<and> timestamp m = now \<and>
       sendMessage_resume outcome now s =
         s\<lparr> messages := messages s @ [m], isLoading := False \<rparr>"
proof (cases "botMessage outcome now")
  case (Inl e)
  then have "sendMessage_resume outcome now s =
      s\<lparr> messages := messages s @ [errorMessage now], isLoading := False \<rparr>"
    by (simp add: sendMessage_resume_def)
  moreover have "type (errorMessage now) = Bot \<and> timestamp (errorMessage now) = now"
    by (simp add: errorMessage_def)
  ultimately show ?thesis by blast
next
  case (Inr m)
  then have "sendMessage_resume outcome now s =
      s\<lparr> messages := messages s @ [m], isLoading := False \<rparr>"
    by (simp add: sendMessage_resume_def)
  with botMessage_type [OF Inr] show ?thesis by blast
qed

lemma js_trim_hi: "js_trim (ascii ''hi'') \<noteq> []"
  by (simp add: js_trim_def ascii_def is_js_space_def)

subsection \<open>Turns and requests over any sequence of events\<close>

lemma app_issue [simp]: "app (issue w r) = fst r"
  by (cases r) (simp add: issue_def split: option.splits)

lemma sendMessage_begin_messages:
  "messages (fst (sendMessage_begin messageText now s)) =
     (if js_trim messageText = [] then messages s
      else messages s @ [\<lparr> type = User, text' = String messageText, timestamp = now \<rparr>])"
  by (simp add: sendMessage_begin_def)

lemma sendMessage_begin_prefix:
  "prefix (messages s) (messages (fst (sendMessage_begin messageText now s)))"
  by (simp add: sendMessage_begin_messages)

lemma sendMessage_resume_prefix:
  "prefix (messages s) (messages (sendMessage_resume outcome now s))"
  by (simp add: sendMessage_resume_def)

lemma handleKeyPress_prefix:
  "prefix (messages s) (messages (fst (handleKeyPress e now s)))"
  using sendMessage_begin_prefix [of s "input s" now]
  by (simp add: handleKeyPress_def case_prod_unfold)

lemma onresult_prefix:
  "prefix (messages s) (messages (fst (onresult transcript now s)))"
  using sendMessage_begin_prefix [of "s\<lparr> input := transcript \<rparr>" transcript now]
  by (simp add: onresult_def)

lemma step_prefix: "prefix (messages (app w)) (messages (app (step now e w)))"
proof (cases e)
  case (SpeechResult transcript)
  then show ?thesis using onresult_prefix [of "app w" transcript now] by simp
next
  case (KeyPress k)
  then show ?thesis using handleKeyPress_prefix [of "app w" k now]
    by (simp add: case_prod_unfold)
next
  case SendClick
  then show ?thesis using sendMessage_begin_prefix [of "app w" "input (app w)" now] by simp
next
  case (ChipClick i)
  then show ?thesis
    by (simp add: sendMessage_begin_prefix split: option.splits)
next
  case (Settled i outcome)
  then show ?thesis using sendMessage_resume_prefix [of "app w" outcome now] by simp
qed (simp_all add: suggestions_loaded_def onstart_def onend_def onerror_def toggleVoiceInput_def)

lemma run_prefix: "prefix (messages (app w)) (messages (app (run es w)))"
proof (induction es arbitrary: w)
  case Nil
  show ?case by simp
next
  case (Cons a es)
  obtain now e where a: "a = (now, e)" by (cases a)
  have "prefix (messages (app w)) (messages (app (step now e w)))" by (rule step_prefix)
  also have "prefix \<dots> (messages (app (run es (step now e w))))" by (rule Cons.IH)
  finally show ?case by (simp add: a)
qed

lemma length_drop_nth: "i < length xs \<Longrightarrow> Suc (length (drop_nth i xs)) = length xs"
  by (auto simp: drop_nth_def)

text \<open>
  Bot turns and requests in flight together are one more than the user turns (the one
  more is the greeting), and every event keeps it so.
\<close>

lemma step_accounting:
  "turns_of Bot w + length (in_flight w) = Suc (turns_of User w) \<Longrightarrow>
   turns_of Bot (step now e w) + length (in_flight (step now e w)) =
     Suc (turns_of User (step now e w))"
proof (cases e)
  case (Settled i outcome)
  obtain m where "type m = Bot"
    "sendMessage_resume outcome now (app w) =
       (app w)\<lparr> messages := messages (app w) @ [m], isLoading := False \<rparr>"
    using sendMessage_resume_appends [of now outcome "app w"] by blast
  then show "turns_of Bot w + length (in_flight w) = Suc (turns_of User w) \<Longrightarrow> ?thesis"
    using Settled length_drop_nth [of i "in_flight w"] by (auto simp: turns_of_def)
qed (auto simp: turns_of_def suggestions_loaded_def onstart_def onend_def onerror_def
      toggleVoiceInput_def issue_def onresult_def handleKeyPress_def sendMessage_begin_def
      split: option.splits prod.splits if_splits)

lemma run_accounting:
  "turns_of Bot w + length (in_flight w) = Suc (turns_of User w) \<Longrightarrow>
   turns_of Bot (run es w) + length (in_flight (run es w)) = Suc (turns_of User (run es w))"
proof (induction es arbitrary: w)
  case Nil
  then show ?case by simp
next
  case (Cons a es)
  obtain now e where a: "a = (now, e)" by (cases a)
  show ?case using Cons.IH [OF step_accounting [OF Cons.prems, of now e]] by (simp add: a)
qed

lemma mount_accounting:
  "turns_of Bot (mount now engine) + length (in_flight (mount now engine)) =
     Suc (turns_of User (mount now engine))"
  by (simp add: turns_of_def mount_def initial_state_def)

text \<open>
  Claim C1. For a text that is not empty after trimming, the synchronous part of
  \<^verbatim>\<open>sendMessage\<close> appends exactly one user turn carrying the text and issues exactly one
  request; when the request settles, with whatever outcome and in whatever state the
  component is by then, exactly one bot turn is appended; a whole call leaves the
  previous turns followed by the user turn and one bot turn, nothing else; and after any
  sequence of events from the mounted page, the bot turns and the requests still in
  flight number one more than the user turns (the greeting).
\<close>

theorem sendMessage_one_user_one_bot:
  "js_trim messageText \<noteq> [] \<Longrightarrow>
     sendMessage_begin messageText now s =
       (s\<lparr> messages :=
              messages s @ [\<lparr> type = User, text' = String messageText, timestamp = now \<rparr>],
           input := [], isLoading := True \<rparr>,
        Some (chat_request messageText)) \<and>
     (\<exists>m. type m = Bot \<and> messages (sendMessage_resume outcome later s2) = messages s2 @ [m]) \<and>
     (\<exists>m. type m = Bot \<and>
          messages (sendMessage messageText now outcome later s) =
            messages s @ [\<lparr> type = User, text' = String messageText, timestamp = now \<rparr>, m]) \<and>
     turns_of Bot (run es (mount t0 engine)) + length (in_flight (run es (mount t0 engine))) =
       Suc (turns_of User (run es (mount t0 engine)))"
  using sendMessage_resume_appends [of later outcome s2]
    sendMessage_resume_appends [of later outcome
      "s\<lparr> messages :=
             messages s @ [\<lparr> type = User, text' = String messageText, timestamp = now \<rparr>],
          input := [], isLoading := True \<rparr>"]
    run_accounting [OF mount_accounting, of es t0 engine]
  by (auto simp: sendMessage_begin_def sendMessage_def)

theorem sendMessage_one_user_one_bot_witness:
  "js_trim (ascii ''hi'') \<noteq> [] \<and>
   messages (fst (sendMessage_begin (ascii ''hi'') 1 (initial_state 0))) =
     [\<lparr> type = Bot, text' = String greeting, timestamp = 0 \<rparr>,
      \<lparr> type = User, text' = String (ascii ''hi''), timestamp = 1 \<rparr>] \<and>
   (\<exists>m. type m = Bot \<and>
        messages (sendMessage (ascii ''hi'') 1 NetworkFailure 2 (initial_state 0)) =
          [\<lparr> type = Bot, text' = String greeting, timestamp = 0 \<rparr>,
           \<lparr> type = User, text' = String (ascii ''hi''), timestamp = 1 \<rparr>, m])"
  using js_trim_hi
    sendMessage_one_user_one_bot [OF js_trim_hi, where now = 1 and s = "initial_state 0"
      and outcome = NetworkFailure and later = 2 and ?s2.0 = "initial_state 0"]
  by (simp add: initial_state_def)

section \<open>The reply to a response\<close>

lemma js_includes_prefix: "prefix y s \<Longrightarrow> js_includes s y"
  by (cases s) simp_all

lemma js_includes_append: "js_includes (p @ y @ q) y"
  by (induction p) (simp_all add: js_includes_prefix)

lemma js_includes_suffix: "js_includes (p @ y) y"
  using js_includes_append [of p y "[]"] by simp

lemma botMessage_error_text:
  "\<not> ok status \<Longrightarrow> get_prop data (ascii ''error'') = Inr (String Y) \<Longrightarrow> Y \<noteq> [] \<Longrightarrow>
     botMessage (Response status (Some data)) now =
       Inr \<lparr> type = Bot, text' = String (error_prefix @ Y), timestamp = now \<rparr>"
  by (simp add: botMessage_def)

lemma botMessage_error_fallback:
  "\<not> ok status \<Longrightarrow> get_prop data (ascii ''error'') = Inr err \<Longrightarrow> \<not> to_boolean err \<Longrightarrow>
     botMessage (Response status (Some data)) now =
       Inr \<lparr> type = Bot, text' = String (error_prefix @ something_went_wrong),
             timestamp = now \<rparr>"
  by (simp add: botMessage_def)

text \<open>
  Claim C2, as stated, fails on a malformed payload. A response with status 200 whose
  body is the empty object is malformed (it has no \<^verbatim>\<open>response\<close> field); the code
  reads \<^verbatim>\<open>data.response\<close> all the same, and the appended bot turn has the text
  \<^verbatim>\<open>undefined\<close>, which is no error message, neither with a server text nor with the
  generic fallback.
\<close>

theorem malformed_payload_counterexample:
  "ok 200 \<and>
   messages (sendMessage_resume (Response 200 (Some (Object []))) 2 (initial_state 0)) =
     messages (initial_state 0) @ [\<lparr> type = Bot, text' = Undefined, timestamp = 2 \<rparr>] \<and>
   Undefined \<noteq> String (error_prefix @ something_went_wrong)"
  by (simp add: ok_def sendMessage_resume_def botMessage_def)

text \<open>
  Claim C2, amended. On a response with a non-success status whose body parsed to a
  value other than \<^verbatim>\<open>null\<close> (so that \<^verbatim>\<open>data.error\<close> can be read), the appended bot turn
  is the error prefix followed by the server's error text when that is a non-empty
  string, and by the generic fallback when the error is absent or falsy; in particular,
  when the error is the string \<open>Y\<close> the text of the turn contains \<open>Y\<close>.
\<close>

theorem error_reply:
  "\<not> ok status \<Longrightarrow> get_prop data (ascii ''error'') = Inr err \<Longrightarrow>
     (err = String Y \<and> Y \<noteq> [] \<longrightarrow>
        messages (sendMessage_resume (Response status (Some data)) now s) =
          messages s @ [\<lparr> type = Bot, text' = String (error_prefix @ Y), timestamp = now \<rparr>]) \<and>
     (\<not> to_boolean err \<longrightarrow>
        messages (sendMessage_resume (Response status (Some data)) now s) =
          messages s @ [\<lparr> type = Bot, text' = String (error_prefix @ something_went_wrong),
                           timestamp = now \<rparr>]) \<and>
     (err = String Y \<longrightarrow>
        (\<exists>t. messages (sendMessage_resume (Response status (Some data)) now s) =
                messages s @ [\<lparr> type = Bot, text' = String t, timestamp = now \<rparr>] \<and>
              js_includes t Y))"
proof (intro conjI impI)
  assume a: "\<not> ok status" "get_prop data (ascii ''error'') = Inr err"
  { assume "err = String Y \<and> Y \<noteq> []"
    with a show "messages (sendMessage_resume (Response status (Some data)) now s) =
          messages s @ [\<lparr> type = Bot, text' = String (error_prefix @ Y), timestamp = now \<rparr>]"
      by (simp add: sendMessage_resume_def botMessage_error_text) }
  { assume "\<not> to_boolean err"
    with a show "messages (sendMessage_resume (Response status (Some data)) now s) =
          messages s @ [\<lparr> type = Bot, text' = String (error_prefix @ something_went_wrong),
                           timestamp = now \<rparr>]"
      by (simp add: sendMessage_resume_def botMessage_error_fallback) }
  { assume e: "err = String Y"
    show "\<exists>t. messages (sendMessage_resume (Response status (Some data)) now s) =
                messages s @ [\<lparr> type = Bot, text' = String t, timestamp = now \<rparr>] \<and>
              js_includes t Y"
    proof (cases "Y = []")
      case True
      with a e have "messages (sendMessage_resume (Response status (Some data)) now s) =
          messages s @ [\<lparr> type = Bot, text' = String (error_prefix @ something_went_wrong),
                           timestamp = now \<rparr>]"
        by (simp add: sendMessage_resume_def botMessage_error_fallback)
      moreover have "js_includes (error_prefix @ something_went_wrong) Y"
        using True js_includes_suffix [of "error_prefix @ something_went_wrong" "[]"] by simp
      ultimately show ?thesis by blast
    next
      case False
      with a e have "messages (sendMessage_resume (Response status (Some data)) now s) =
          messages s @ [\<lparr> type = Bot, text' = String (error_prefix @ Y), timestamp = now \<rparr>]"
        by (simp add: sendMessage_resume_def botMessage_error_text)
      then show ?thesis using js_includes_suffix [of error_prefix Y] by blast
    qed }
qed

lemma not_ok_400: "\<not> ok 400"
  by (simp add: ok_def)

lemma error_field_Y:
  "get_prop (Object [(ascii ''error'', String (ascii ''Y''))]) (ascii ''error'') =
     Inr (String (ascii ''Y''))"
  by simp

lemma error_field_absent: "get_prop (Object []) (ascii ''error'') = Inr Undefined"
  by simp

theorem error_reply_witness:
  "\<not> ok 400 \<and>
   messages (sendMessage_resume
       (Response 400 (Some (Object [(ascii ''error'', String (ascii ''Y''))]))) 2
       (initial_state 0)) =
     [\<lparr> type = Bot, text' = String greeting, timestamp = 0 \<rparr>,
      \<lparr> type = Bot, text' = String (error_prefix @ ascii ''Y''), timestamp = 2 \<rparr>] \<and>
   js_includes (error_prefix @ ascii ''Y'') (ascii ''Y'') \<and>
   \<not> to_boolean Undefined \<and>
   messages (sendMessage_resume (Response 400 (Some (Object []))) 2 (initial_state 0)) =
     [\<lparr> type = Bot, text' = String greeting, timestamp = 0 \<rparr>,
      \<lparr> type = Bot, text' = String (error_prefix @ something_went_wrong), timestamp = 2 \<rparr>]"
  using not_ok_400
    error_reply [OF not_ok_400 error_field_Y, of "ascii ''Y''" 2 "initial_state 0"]
    error_reply [OF not_ok_400 error_field_absent, of "ascii ''Y''" 2 "initial_state 0"]
  by (auto simp: initial_state_def ascii_def)

text \<open>
  Claim C4. On a response with a success status whose body is an object with the
  \<^verbatim>\<open>response\<close> field \<open>String X\<close>, the appended bot turn has exactly the text \<open>X\<close>.
\<close>

theorem success_reply_exact:
  "ok status \<Longrightarrow> map_of props (ascii ''response'') = Some (String X) \<Longrightarrow>
     messages (sendMessage_resume (Response status (Some (Object props))) now s) =
       messages s @ [\<lparr> type = Bot, text' = String X, timestamp = now \<rparr>]"
  by (simp add: sendMessage_resume_def botMessage_def)

lemma ok_200: "ok 200"
  by (simp add: ok_def)

lemma response_field_X:
  "map_of [(ascii ''response'', String (ascii ''X''))] (ascii ''response'') =
     Some (String (ascii ''X''))"
  by simp

theorem success_reply_exact_witness:
  "ok 200 \<and>
   messages (sendMessage_resume
       (Response 200 (Some (Object [(ascii ''response'', String (ascii ''X''))]))) 2
       (initial_state 0)) =
     [\<lparr> type = Bot, text' = String greeting, timestamp = 0 \<rparr>,
      \<lparr> type = Bot, text' = String (ascii ''X''), timestamp = 2 \<rparr>]"
  using ok_200 success_reply_exact [OF ok_200 response_field_X, of 2 "initial_state 0"]
  by (simp add: initial_state_def)

text \<open>
  Claim C5. When \<^verbatim>\<open>fetch\<close> rejects, the appended bot turn has the text
  \<open>failed_to_connect\<close>, a constant: it is the same in every state and for every
  submitted text.
\<close>

theorem network_failure_fixed_reply:
  "messages (sendMessage_resume NetworkFailure later s2) =
     messages s2 @ [\<lparr> type = Bot, text' = String failed_to_connect, timestamp = later \<rparr>] \<and>
   (js_trim messageText \<noteq> [] \<longrightarrow>
      messages (sendMessage messageText now NetworkFailure later s) =
        messages s @ [\<lparr> type = User, text' = String messageText, timestamp = now \<rparr>,
                      \<lparr> type = Bot, text' = String failed_to_connect, timestamp = later \<rparr>])"
  by (simp add: sendMessage_def sendMessage_begin_def sendMessage_resume_def botMessage_def
      errorMessage_def)

theorem network_failure_fixed_reply_witness:
  "js_trim (ascii ''hi'') \<noteq> [] \<and>
   messages (sendMessage (ascii ''hi'') 1 NetworkFailure 2 (initial_state 0)) =
     [\<lparr> type = Bot, text' = String greeting, timestamp = 0 \<rparr>,
      \<lparr> type = User, text' = String (ascii ''hi''), timestamp = 1 \<rparr>,
      \<lparr> type = Bot, text' = String failed_to_connect, timestamp = 2 \<rparr>]"
  using js_trim_hi
    network_failure_fixed_reply [of 2 "initial_state 0" "ascii ''hi''" 1 "initial_state 0"]
  by (simp add: initial_state_def)

section \<open>The busy flag and the blank submission\<close>

text \<open>
  Claim C3. A submission that issues a request sets \<^verbatim>\<open>isLoading\<close> as it does so; when
  the request settles, whatever the outcome (a reply, a server error, a network failure)
  and whatever the state by then, \<^verbatim>\<open>isLoading\<close> is false afterwards.
\<close>

theorem busy_flag_set_and_cleared:
  "js_trim messageText \<noteq> [] \<Longrightarrow>
     isLoading (fst (sendMessage_begin messageText now s)) \<and>
     snd (sendMessage_begin messageText now s) = Some (chat_request messageText) \<and>
     \<not> isLoading (sendMessage_resume outcome later s2) \<and>
     \<not> isLoading (sendMessage messageText now outcome later s)"
  by (simp add: sendMessage_begin_def sendMessage_def sendMessage_resume_def)

theorem busy_flag_set_and_cleared_witness:
  "js_trim (ascii ''hi'') \<noteq> [] \<and>
   isLoading (fst (sendMessage_begin (ascii ''hi'') 1 (initial_state 0))) \<and>
   \<not> isLoading (sendMessage_resume NetworkFailure 2
        (fst (sendMessage_begin (ascii ''hi'') 1 (initial_state 0)))) \<and>
   \<not> isLoading (sendMessage_resume (Response 500 (Some (Object []))) 2
        (fst (sendMessage_begin (ascii ''hi'') 1 (initial_state 0)))) \<and>
   \<not> isLoading (sendMessage_resume
        (Response 200 (Some (Object [(ascii ''response'', String (ascii ''X''))]))) 2
        (fst (sendMessage_begin (ascii ''hi'') 1 (initial_state 0))))"
  using js_trim_hi
    busy_flag_set_and_cleared [OF js_trim_hi, where now = 1 and s = "initial_state 0"
      and outcome = NetworkFailure and later = 2
      and ?s2.0 = "fst (sendMessage_begin (ascii ''hi'') 1 (initial_state 0))"]
    busy_flag_set_and_cleared [OF js_trim_hi, where now = 1 and s = "initial_state 0"
      and outcome = "Response 500 (Some (Object []))" and later = 2
      and ?s2.0 = "fst (sendMessage_begin (ascii ''hi'') 1 (initial_state 0))"]
    busy_flag_set_and_cleared [OF js_trim_hi, where now = 1 and s = "initial_state 0"
      and outcome = "Response 200 (Some (Object [(ascii ''response'', String (ascii ''X''))]))"
      and later = 2
      and ?s2.0 = "fst (sendMessage_begin (ascii ''hi'') 1 (initial_state 0))"]
  by simp

text \<open>
  Claim C6. Submitting a text that is empty or made of white space only does nothing:
  the state, with its turns and its draft, is the one before, and no request is issued.
\<close>

theorem blank_submission_noop:
  "list_all is_js_space messageText \<Longrightarrow>
     sendMessage_begin messageText now s = (s, None) \<and>
     sendMessage messageText now outcome later s = s"
  by (simp add: sendMessage_begin_def sendMessage_def js_trim_empty_iff)

lemma blank_text: "list_all is_js_space (ascii '' '' @ [0x09, 0x0A, 0xA0])"
  by (simp add: ascii_def is_js_space_def)

theorem blank_submission_noop_witness:
  "list_all is_js_space (ascii '' '' @ [0x09, 0x0A, 0xA0]) \<and>
   list_all is_js_space [] \<and>
   sendMessage_begin (ascii '' '' @ [0x09, 0x0A, 0xA0]) 1
       ((initial_state 0)\<lparr> input := ascii ''draft'' \<rparr>) =
     ((initial_state 0)\<lparr> input := ascii ''draft'' \<rparr>, None) \<and>
   sendMessage_begin [] 1 (initial_state 0) = (initial_state 0, None)"
  using blank_text
    blank_submission_noop [OF blank_text, of 1 "(initial_state 0)\<lparr> input := ascii ''draft'' \<rparr>"]
    blank_submission_noop [of "[]" 1 "initial_state 0"]
  by simp

section \<open>The conversation is an append-only log\<close>

text \<open>
  Claim C7. The mounted component holds exactly the greeting turn; every event of the
  page, and so every sequence of events, leaves the turns it found as a prefix of the
  turns it leaves (so do the two halves of \<^verbatim>\<open>sendMessage\<close> in any state); and the
  conversation is never empty.
\<close>

theorem conversation_append_only:
  "messages (app (mount now engine)) =
     [\<lparr> type = Bot, text' = String greeting, timestamp = now \<rparr>] \<and>
   prefix (messages (app w)) (messages (app (step later e w))) \<and>
   prefix (messages (app w)) (messages (app (run es w))) \<and>
   messages (app (run es (mount now engine))) \<noteq> [] \<and>
   prefix (messages s) (messages (fst (sendMessage_begin messageText later s))) \<and>
   prefix (messages s) (messages (sendMessage_resume outcome later s))"
proof -
  have m: "messages (app (mount now engine)) =
     [\<lparr> type = Bot, text' = String greeting, timestamp = now \<rparr>]"
    by (simp add: mount_def initial_state_def)
  have "prefix (messages (app (mount now engine))) (messages (app (run es (mount now engine))))"
    by (rule run_prefix)
  with m have "messages (app (run es (mount now engine))) \<noteq> []" by auto
  with m show ?thesis
    by (simp add: step_prefix run_prefix sendMessage_begin_prefix sendMessage_resume_prefix)
qed

section \<open>The Enter key\<close>

text \<open>
  Claim C8, as stated, fails for a modifier other than Shift: the handler looks at
  \<^verbatim>\<open>shiftKey\<close> only. An Enter press with Control held and the draft \<^verbatim>\<open>hi\<close> submits: the
  user turn is appended and the request is issued.
\<close>

theorem enter_with_control_counterexample:
  "handleKeyPress \<lparr> key = ascii ''Enter'', shiftKey = False, ctrlKey = True, altKey = False,
                    metaKey = False \<rparr> 1 ((initial_state 0)\<lparr> input := ascii ''hi'' \<rparr>) =
     ((initial_state 0)\<lparr> messages :=
          [\<lparr> type = Bot, text' = String greeting, timestamp = 0 \<rparr>,
           \<lparr> type = User, text' = String (ascii ''hi''), timestamp = 1 \<rparr>],
        input := [], isLoading := True \<rparr>,
      Some (chat_request (ascii ''hi'')), True)"
  using js_trim_hi by (simp add: handleKeyPress_def sendMessage_begin_def initial_state_def)

text \<open>
  Claim C8, amended. A key press with Shift held never submits: the handler leaves the
  state alone, issues no request and does not prevent the default action. An Enter press
  without Shift, whatever the other modifiers, calls \<^verbatim>\<open>sendMessage\<close> once on the draft
  and prevents the default action; when the draft is not empty after trimming, that
  appends one user turn and issues one request.
\<close>

theorem enter_submits_unless_shift:
  "(shiftKey e \<longrightarrow> handleKeyPress e now s = (s, None, False)) \<and>
   (key e = ascii ''Enter'' \<and> \<not> shiftKey e \<longrightarrow>
      handleKeyPress e now s =
        (fst (sendMessage_begin (input s) now s), snd (sendMessage_begin (input s) now s),
         True)) \<and>
   (key e = ascii ''Enter'' \<and> \<not> shiftKey e \<and> js_trim (input s) \<noteq> [] \<longrightarrow>
      handleKeyPress e now s =
        (s\<lparr> messages :=
               messages s @ [\<lparr> type = User, text' = String (input s), timestamp = now \<rparr>],
            input := [], isLoading := True \<rparr>,
         Some (chat_request (input s)), True))"
  by (simp add: handleKeyPress_def sendMessage_begin_def)

theorem enter_submits_unless_shift_witness:
  "handleKeyPress \<lparr> key = ascii ''Enter'', shiftKey = True, ctrlKey = False, altKey = False,
                    metaKey = False \<rparr> 1 ((initial_state 0)\<lparr> input := ascii ''hi'' \<rparr>) =
     ((initial_state 0)\<lparr> input := ascii ''hi'' \<rparr>, None, False) \<and>
   js_trim (ascii ''hi'') \<noteq> [] \<and>
   handleKeyPress \<lparr> key = ascii ''Enter'', shiftKey = False, ctrlKey = False, altKey = False,
                    metaKey = False \<rparr> 1 ((initial_state 0)\<lparr> input := ascii ''hi'' \<rparr>) =
     ((initial_state 0)\<lparr> messages :=
          [\<lparr> type = Bot, text' = String greeting, timestamp = 0 \<rparr>,
           \<lparr> type = User, text' = String (ascii ''hi''), timestamp = 1 \<rparr>],
        input := [], isLoading := True \<rparr>,
      Some (chat_request (ascii ''hi'')), True)"
  using js_trim_hi
    enter_submits_unless_shift [of "\<lparr> key = ascii ''Enter'', shiftKey = True, ctrlKey = False,
      altKey = False, metaKey = False \<rparr>" 1 "(initial_state 0)\<lparr> input := ascii ''hi'' \<rparr>"]
    enter_submits_unless_shift [of "\<lparr> key = ascii ''Enter'', shiftKey = False, ctrlKey = False,
      altKey = False, metaKey = False \<rparr>" 1 "(initial_state 0)\<lparr> input := ascii ''hi'' \<rparr>"]
  by (simp add: initial_state_def sendMessage_begin_def)

section \<open>Formatting a message\<close>

lemma star_not_terminator: "\<not> is_line_terminator star"
  by (simp add: star_def is_line_terminator_def)

lemma find_close_after_terminator: "is_line_terminator d \<Longrightarrow> find_close (d # ds) = None"
  by (cases ds) (auto simp: star_not_terminator)

lemma find_close_None_iff: "find_close ds = None \<longleftrightarrow> no_double_star (same_line ds)"
  by (induction ds rule: find_close.induct)
     (auto simp: same_line_def star_not_terminator find_close_after_terminator
       split: option.splits)

lemma find_close_Some:
  "find_close ds = Some (inner, rest) \<Longrightarrow>
     ds = inner @ star # star # rest \<and> no_double_star (inner @ [star]) \<and>
     \<not> list_ex is_line_terminator inner"
proof (induction ds arbitrary: inner rule: find_close.induct)
  case (1 c d ds)
  show ?case
  proof (cases "c = star \<and> d = star")
    case True
    with "1.prems" show ?thesis by simp
  next
    case False
    with "1.prems" have line: "\<not> is_line_terminator c"
      by (auto split: if_splits)
    from False line "1.prems" obtain inner' where found: "find_close (d # ds) = Some (inner', rest)"
      and inner: "inner = c # inner'"
      by (auto split: option.splits)
    from "1.IH" [OF False line found] have ih: "d # ds = inner' @ star # star # rest"
      "no_double_star (inner' @ [star])" "\<not> list_ex is_line_terminator inner'"
      by simp_all
    from ih(1) obtain es where "inner' @ [star] = d # es"
      by (cases inner') auto
    with False ih(2) have "no_double_star (c # inner' @ [star])" by simp
    with ih line inner show ?thesis by simp
  qed
qed simp_all

lemma replace_strong_step: "\<not> span_here (c # cs) \<Longrightarrow> replace_strong (c # cs) = c # replace_strong cs"
proof (cases cs)
  case Nil
  then show ?thesis by simp
next
  case (Cons d ds)
  assume "\<not> span_here (c # cs)"
  with Cons have "\<not> (c = star \<and> d = star) \<or> find_close ds = None"
    by (simp add: find_close_None_iff)
  with Cons show ?thesis by auto
qed

lemma replace_strong_skip:
  "no_span_in pre tail \<Longrightarrow> replace_strong (pre @ tail) = pre @ replace_strong tail"
proof (induction pre)
  case Nil
  show ?case by (simp only: append_Nil)
next
  case (Cons c pre)
  then have here: "\<not> span_here (c # pre @ tail)" and later: "no_span_in pre tail"
    by simp_all
  have "replace_strong (c # pre @ tail) = c # replace_strong (pre @ tail)"
    using here by (rule replace_strong_step)
  then show ?case by (simp only: append_Cons Cons.IH [OF later])
qed

lemma replace_strong_no_span: "no_span s \<Longrightarrow> replace_strong s = s"
  using replace_strong_skip [of s "[]"] by (simp add: no_span_def)

lemma span_decomposition:
  "\<not> no_span_in s [] \<Longrightarrow>
     \<exists>pre inner post. s = pre @ star # star # inner @ star # star # post \<and>
       no_span_in pre (star # star # inner @ star # star # post) \<and>
       no_double_star (inner @ [star]) \<and> \<not> list_ex is_line_terminator inner"
proof (induction s)
  case Nil
  then show ?case by simp
next
  case (Cons c cs)
  show ?case
  proof (cases "span_here (c # cs)")
    case True
    then obtain ds where cs: "cs = star # ds" and c: "c = star"
      and "\<not> no_double_star (same_line ds)"
      by (cases cs) auto
    then obtain inner rest where "find_close ds = Some (inner, rest)"
      using find_close_None_iff [of ds] by (cases "find_close ds") auto
    from find_close_Some [OF this] cs c
    have "c # cs = [] @ star # star # inner @ star # star # rest \<and>
       no_span_in [] (star # star # inner @ star # star # rest) \<and>
       no_double_star (inner @ [star]) \<and> \<not> list_ex is_line_terminator inner"
      by simp
    then show ?thesis by blast
  next
    case False
    with Cons.prems have "\<not> no_span_in cs []" by simp
    from Cons.IH [OF this] obtain pre inner post where
      d: "cs = pre @ star # star # inner @ star # star # post"
      "no_span_in pre (star # star # inner @ star # star # post)"
      "no_double_star (inner @ [star])" "\<not> list_ex is_line_terminator inner"
      by blast
    from False d(1,2) have "no_span_in (c # pre) (star # star # inner @ star # star # post)"
      by simp
    with d have "c # cs = (c # pre) @ star # star # inner @ star # star # post \<and>
       no_span_in (c # pre) (star # star # inner @ star # star # post) \<and>
       no_double_star (inner @ [star]) \<and> \<not> list_ex is_line_terminator inner"
      by simp
    then show ?thesis by blast
  qed
qed

lemma replace_newline_append:
  "replace_newline (a @ b) = replace_newline a @ replace_newline b"
  by (simp add: replace_newline_def)

lemma replace_newline_plain: "0x0A \<notin> set s \<Longrightarrow> replace_newline s = s"
  by (induction s) (simp_all add: replace_newline_def)

lemma line_feed_terminator: "\<not> list_ex is_line_terminator s \<Longrightarrow> 0x0A \<notin> set s"
  by (auto simp: list_ex_iff is_line_terminator_def)

lemma ascii_stars: "ascii ''**'' = [star, star]"
  by (simp add: ascii_def star_def)

lemma replace_newline_open_tag: "replace_newline (ascii ''<strong>'') = ascii ''<strong>''"
  by (simp add: replace_newline_def ascii_def)

lemma replace_newline_close_tag: "replace_newline (ascii ''</strong>'') = ascii ''</strong>''"
  by (simp add: replace_newline_def ascii_def)

lemma find_close_found:
  "no_double_star (inner @ [star]) \<Longrightarrow> \<not> list_ex is_line_terminator inner \<Longrightarrow>
     find_close (inner @ star # star # rest) = Some (inner, rest)"
proof (induction inner)
  case Nil
  show ?case by simp
next
  case (Cons c inner)
  obtain d ds where split: "inner @ [star] = d # ds"
    by (cases "inner @ [star]") simp_all
  then have next_char: "inner @ star # star # rest = d # ds @ star # rest"
    by (cases inner) auto
  from Cons.prems split have apart: "\<not> (c = star \<and> d = star)"
    and shorter: "no_double_star (inner @ [star])"
    and same_line: "\<not> is_line_terminator c" "\<not> list_ex is_line_terminator inner"
    by simp_all
  have "find_close (d # ds @ star # rest) = Some (inner, rest)"
    using Cons.IH [OF shorter same_line(2)] by (simp only: next_char)
  then have "find_close (c # d # ds @ star # rest) = Some (c # inner, rest)"
    using apart same_line(1) by auto
  then show ?case by (simp only: append_Cons next_char)
qed

lemma replace_strong_span:
  assumes "no_span_in pre (star # star # inner @ star # star # post)"
    and "no_double_star (inner @ [star])" and "\<not> list_ex is_line_terminator inner"
  shows "replace_strong (pre @ star # star # inner @ star # star # post) =
      pre @ ascii ''<strong>'' @ inner @ ascii ''</strong>'' @ replace_strong post"
proof -
  have "replace_strong (star # star # inner @ star # star # post) =
      ascii ''<strong>'' @ inner @ ascii ''</strong>'' @ replace_strong post"
    using find_close_found [OF assms(2,3), of post] by simp
  with replace_strong_skip [OF assms(1)] show ?thesis by (simp only:)
qed

text \<open>
  Claim C9, as stated, fails on the text \<^verbatim>\<open><i>**a\<close>, a line feed, \<^verbatim>\<open>b**\<close>. The span
  between the double asterisks holds a line feed, which the dot of the pattern does not
  match, so nothing is emphasised: the result has no \<^verbatim>\<open><strong>\<close>. And the tag
  \<^verbatim>\<open><i>\<close> of the text is copied as it is into the string that becomes the inner HTML
  of the bubble, where it is markup.
\<close>

theorem formatMessage_counterexample:
  "formatMessage (String (ascii ''<i>**a'' @ [0x0A] @ ascii ''b**'')) =
     Inr (Some (ascii ''<i>**a<br/>b**'')) \<and>
   \<not> js_includes (ascii ''<i>**a<br/>b**'') (ascii ''<strong>'') \<and>
   js_includes (ascii ''<i>**a<br/>b**'') (ascii ''<i>'')"
  by (simp add: formatMessage_def ascii_def replace_newline_def star_def is_line_terminator_def)

text \<open>
  Claim C9, amended. For a text that is a non-empty string, formatting goes from left to
  right. A double asterisk opens a span when another double asterisk follows it before
  the next line terminator. In a text where no span begins, every line feed becomes
  \<^verbatim>\<open><br/>\<close> and every other character is copied unchanged, a double asterisk that
  opens nothing included; without a line feed such a text is its own formatting,
  whatever else it holds: nothing else is translated and nothing is escaped. Otherwise
  the text is \<open>pre\<close>, the leftmost opener, the span \<open>inner\<close> up to the first double
  asterisk after the opener, that double asterisk, and \<open>post\<close>; then \<open>pre\<close> is formatted
  as a text with no span, \<open>inner\<close> becomes a \<^verbatim>\<open><strong>\<close> element, and \<open>post\<close> is
  formatted in the same way. Every text is of one of the two kinds, so these rules give
  the formatting of every text. An empty text renders nothing.
\<close>

theorem formatMessage_rules:
  "(no_span s \<and> s \<noteq> [] \<longrightarrow>
      formatMessage (String s) =
        Inr (Some (concat (map (\<lambda>c. if c = 0x0A then ascii ''<br/>'' else [c]) s)))) \<and>
   (no_span s \<and> 0x0A \<notin> set s \<and> s \<noteq> [] \<longrightarrow> formatMessage (String s) = Inr (Some s)) \<and>
   (no_span_in pre (ascii ''**'' @ inner @ ascii ''**'' @ post) \<and>
    no_double_star (inner @ [star]) \<and> \<not> list_ex is_line_terminator inner \<and>
    (if post = [] then out = [] else formatMessage (String post) = Inr (Some out)) \<longrightarrow>
      formatMessage (String (pre @ ascii ''**'' @ inner @ ascii ''**'' @ post)) =
        Inr (Some (concat (map (\<lambda>c. if c = 0x0A then ascii ''<br/>'' else [c]) pre)
                   @ ascii ''<strong>'' @ inner @ ascii ''</strong>'' @ out))) \<and>
   (no_span s \<or>
    (\<exists>pre inner post.
        s = pre @ ascii ''**'' @ inner @ ascii ''**'' @ post \<and>
        no_span_in pre (ascii ''**'' @ inner @ ascii ''**'' @ post) \<and>
        no_double_star (inner @ [star]) \<and> \<not> list_ex is_line_terminator inner)) \<and>
   formatMessage (String []) = Inr None"
proof (intro conjI impI)
  assume "no_span s \<and> s \<noteq> []"
  then show "formatMessage (String s) =
        Inr (Some (concat (map (\<lambda>c. if c = 0x0A then ascii ''<br/>'' else [c]) s)))"
    by (simp add: formatMessage_def replace_newline_def replace_strong_no_span)
next
  assume "no_span s \<and> 0x0A \<notin> set s \<and> s \<noteq> []"
  then show "formatMessage (String s) = Inr (Some s)"
    by (simp add: formatMessage_def replace_newline_plain replace_strong_no_span)
next
  assume a: "no_span_in pre (ascii ''**'' @ inner @ ascii ''**'' @ post) \<and>
    no_double_star (inner @ [star]) \<and> \<not> list_ex is_line_terminator inner \<and>
    (if post = [] then out = [] else formatMessage (String post) = Inr (Some out))"
  then have "replace_strong (pre @ ascii ''**'' @ inner @ ascii ''**'' @ post) =
      pre @ ascii ''<strong>'' @ inner @ ascii ''</strong>'' @ replace_strong post"
    using replace_strong_span [of pre inner post] by (simp add: ascii_stars)
  moreover have "replace_newline inner = inner"
    using a by (simp add: replace_newline_plain line_feed_terminator)
  moreover have "out = replace_newline (replace_strong post)"
    using a by (cases "post = []") (simp_all add: formatMessage_def replace_newline_def)
  moreover have "pre @ ascii ''**'' @ inner @ ascii ''**'' @ post \<noteq> []"
    by (simp add: ascii_stars)
  moreover have "replace_newline pre =
      concat (map (\<lambda>c. if c = 0x0A then ascii ''<br/>'' else [c]) pre)"
    by (simp add: replace_newline_def)
  ultimately show "formatMessage (String (pre @ ascii ''**'' @ inner @ ascii ''**'' @ post)) =
        Inr (Some (concat (map (\<lambda>c. if c = 0x0A then ascii ''<br/>'' else [c]) pre)
                   @ ascii ''<strong>'' @ inner @ ascii ''</strong>'' @ out))"
    by (simp add: formatMessage_def replace_newline_append replace_newline_open_tag
        replace_newline_close_tag)
next
  show "no_span s \<or>
    (\<exists>pre inner post.
        s = pre @ ascii ''**'' @ inner @ ascii ''**'' @ post \<and>
        no_span_in pre (ascii ''**'' @ inner @ ascii ''**'' @ post) \<and>
        no_double_star (inner @ [star]) \<and> \<not> list_ex is_line_terminator inner)"
    using span_decomposition [of s] by (auto simp: no_span_def ascii_stars)
next
  show "formatMessage (String []) = Inr None"
    by (simp add: formatMessage_def)
qed

lemma no_span_unclosed: "no_span (ascii ''2 ** 3 = 8'')"
  by (simp add: no_span_def ascii_def star_def same_line_def is_line_terminator_def)

lemma no_span_two_lines: "no_span (ascii ''a'' @ [0x0A] @ ascii ''b'')"
  by (simp add: no_span_def ascii_def star_def same_line_def is_line_terminator_def)

lemma no_span_tail: "no_span (ascii ''d**'')"
  by (simp add: no_span_def ascii_def star_def same_line_def is_line_terminator_def)

lemma no_span_before_second_opener:
  "no_span_in (ascii ''**a'' @ [0x0A] @ ascii ''b'')
     (ascii ''**'' @ ascii '' c '' @ ascii ''**'' @ ascii ''d**'')"
  by (simp add: ascii_def star_def same_line_def is_line_terminator_def)

lemma shortest_inner: "no_double_star (ascii '' c '' @ [star])"
  by (simp add: ascii_def star_def)

lemma inner_on_one_line: "\<not> list_ex is_line_terminator (ascii '' c '')"
  by (simp add: ascii_def is_line_terminator_def)

theorem formatMessage_rules_witness:
  "no_span (ascii ''2 ** 3 = 8'') \<and>
   formatMessage (String (ascii ''2 ** 3 = 8'')) = Inr (Some (ascii ''2 ** 3 = 8'')) \<and>
   no_span (ascii ''a'' @ [0x0A] @ ascii ''b'') \<and>
   formatMessage (String (ascii ''a'' @ [0x0A] @ ascii ''b'')) = Inr (Some (ascii ''a<br/>b'')) \<and>
   formatMessage (String (ascii ''d**'')) = Inr (Some (ascii ''d**'')) \<and>
   formatMessage (String ((ascii ''**a'' @ [0x0A] @ ascii ''b'') @ ascii ''**'' @ ascii '' c ''
       @ ascii ''**'' @ ascii ''d**'')) =
     Inr (Some (ascii ''**a<br/>b<strong> c </strong>d**''))"
proof -
  have unclosed: "formatMessage (String (ascii ''2 ** 3 = 8'')) = Inr (Some (ascii ''2 ** 3 = 8''))"
    using no_span_unclosed
      formatMessage_rules [where s = "ascii ''2 ** 3 = 8''", THEN conjunct2, THEN conjunct1]
    by (simp add: ascii_def)
  have lines: "formatMessage (String (ascii ''a'' @ [0x0A] @ ascii ''b'')) =
      Inr (Some (ascii ''a<br/>b''))"
    using no_span_two_lines
      formatMessage_rules [where s = "ascii ''a'' @ [0x0A] @ ascii ''b''", THEN conjunct1]
    by (simp add: ascii_def)
  have tail: "formatMessage (String (ascii ''d**'')) = Inr (Some (ascii ''d**''))"
    using no_span_tail
      formatMessage_rules [where s = "ascii ''d**''", THEN conjunct2, THEN conjunct1]
    by (simp add: ascii_def)
  have nonempty: "ascii ''d**'' \<noteq> []"
    by (simp add: ascii_def)
  have "formatMessage (String ((ascii ''**a'' @ [0x0A] @ ascii ''b'') @ ascii ''**'' @ ascii '' c ''
       @ ascii ''**'' @ ascii ''d**'')) =
     Inr (Some (concat (map (\<lambda>c. if c = 0x0A then ascii ''<br/>'' else [c])
                  (ascii ''**a'' @ [0x0A] @ ascii ''b''))
                @ ascii ''<strong>'' @ ascii '' c '' @ ascii ''</strong>'' @ ascii ''d**''))"
    using no_span_before_second_opener shortest_inner inner_on_one_line tail nonempty
      formatMessage_rules [where pre = "ascii ''**a'' @ [0x0A] @ ascii ''b''"
        and inner = "ascii '' c ''" and post = "ascii ''d**''" and out = "ascii ''d**''",
        THEN conjunct2, THEN conjunct2, THEN conjunct1]
    by (simp only: if_False simp_thms)
  then have span: "formatMessage (String ((ascii ''**a'' @ [0x0A] @ ascii ''b'') @ ascii ''**''
       @ ascii '' c '' @ ascii ''**'' @ ascii ''d**'')) =
     Inr (Some (ascii ''**a<br/>b<strong> c </strong>d**''))"
    by (simp add: ascii_def)
  from no_span_unclosed unclosed no_span_two_lines lines tail span show ?thesis
    by (intro conjI)
qed

section \<open>The suggestions panel\<close>

text \<open>
  Claim C10. Whenever the panel is rendered, its chips are the first four of the
  fetched suggestions (all of them when there are fewer), in the fetched order.
\<close>

theorem suggestions_panel_first_four:
  "suggestions_panel s = Some chips \<Longrightarrow>
     chips = take 4 (suggestions s) \<and> length chips \<le> 4 \<and> prefix chips (suggestions s) \<and>
     length chips = min 4 (length (suggestions s))"
  by (auto simp: suggestions_panel_def take_is_prefix split: if_splits)

lemma panel_of_five:
  "suggestions_panel ((initial_state 0)\<lparr> suggestions :=
       [ascii ''a'', ascii ''b'', ascii ''c'', ascii ''d'', ascii ''e''] \<rparr>) =
     Some [ascii ''a'', ascii ''b'', ascii ''c'', ascii ''d'']"
  by (simp add: suggestions_panel_def initial_state_def)

theorem suggestions_panel_first_four_witness:
  "suggestions_panel ((initial_state 0)\<lparr> suggestions :=
       [ascii ''a'', ascii ''b'', ascii ''c'', ascii ''d'', ascii ''e''] \<rparr>) =
     Some [ascii ''a'', ascii ''b'', ascii ''c'', ascii ''d''] \<and>
   length [ascii ''a'', ascii ''b'', ascii ''c'', ascii ''d''] \<le> 4 \<and>
   prefix [ascii ''a'', ascii ''b'', ascii ''c'', ascii ''d'']
     (suggestions ((initial_state 0)\<lparr> suggestions :=
       [ascii ''a'', ascii ''b'', ascii ''c'', ascii ''d'', ascii ''e''] \<rparr>))"
  using panel_of_five suggestions_panel_first_four [OF panel_of_five]
  by blast

end
